theory Spec2Isabelle
  imports Complex_Main
begin

section \<open>The style parser of video.ts\<close>

text \<open>
  A JavaScript string is modelled as a list of characters, one per code unit. The parser
  tells apart only the escape character, the bracket, the digits, the semicolon and the
  letter m; every other code unit is plain text to it.
\<close>

subsection \<open>Data model\<close>

text \<open>
  The interface \<^verbatim>\<open>Style\<close>: every field is optional, so each one is either absent
  (\<open>None\<close>) or holds a value. The empty object literal is the style with every field absent.
  A field assigned \<^verbatim>\<open>undefined\<close> reads as an absent one, and the program only reads
  the fields, so it is \<open>None\<close> as well.
\<close>

record Style =
  fg :: "string option"
  bold :: "bool option"
  italic :: "bool option"
  underline :: "bool option"
  dim :: "bool option"

record Span =
  "text" :: string
  style :: Style

definition empty_style :: Style where
  "empty_style = \<lparr>fg = None, bold = None, italic = None, underline = None, dim = None\<rparr>"

text \<open>The table \<^verbatim>\<open>ANSI\<close> of sixteen foreground colours.\<close>

definition ANSI :: "nat \<Rightarrow> string option" where
  "ANSI = map_of
     [(30, ''#8899cc''), (31, ''#ff5555''), (32, ''#50fa7b''), (33, ''#f1fa8c''),
      (34, ''#6699ff''), (35, ''#ff79c6''), (36, ''#8be9fd''), (37, ''#ffffff''),
      (90, ''#8899cc''), (91, ''#ff5555''), (92, ''#50fa7b''), (93, ''#f1fa8c''),
      (94, ''#6699ff''), (95, ''#ff79c6''), (96, ''#8be9fd''), (97, ''#ffffff'')]"

subsection \<open>The regular expression\<close>

text \<open>
  The pattern is ESC, an opening bracket, a greedy run of digits and semicolons, and the
  letter m. The letter m is not in the character class, so the only run that can be
  followed by m is the longest one: backtracking never finds another match.
\<close>

definition ESC :: char where
  "ESC = CHR 0x1B"

definition is_param :: "char \<Rightarrow> bool" where
  "is_param c = (c \<in> set ''0123456789;'')"

text \<open>A match anchored at the head: the captured parameters and the text after the match.\<close>

definition match_here :: "string \<Rightarrow> (string \<times> string) option" where
  "match_here s =
     (case s of
        c1 # c2 # r \<Rightarrow>
          if c1 = ESC \<and> c2 = CHR ''[''
          then (case dropWhile is_param r of
                  c3 # rest \<Rightarrow> if c3 = CHR ''m'' then Some (takeWhile is_param r, rest) else None
                | [] \<Rightarrow> None)
          else None
      | _ \<Rightarrow> None)"

text \<open>
  \<^verbatim>\<open>re.exec\<close> on the text from \<^verbatim>\<open>lastIndex\<close> on: the leftmost match, as the text
  before it, the captured parameters and the text after it; \<open>None\<close> for \<^verbatim>\<open>null\<close>.
\<close>

fun re_exec :: "string \<Rightarrow> (string \<times> string \<times> string) option" where
  "re_exec [] = None"
| "re_exec (c # cs) =
     (case match_here (c # cs) of
        Some (ps, rest) \<Rightarrow> Some ([], ps, rest)
      | None \<Rightarrow>
          (case re_exec cs of
             Some (pre, ps, rest) \<Rightarrow> Some (c # pre, ps, rest)
           | None \<Rightarrow> None))"

subsection \<open>Applying the codes of one sequence\<close>

text \<open>
  \<^verbatim>\<open>seq.split(';')\<close>: the pieces between semicolons; the empty string gives one empty
  piece. The result always has a piece, so the last case below is never taken.
\<close>

fun split_semi :: "string \<Rightarrow> string list" where
  "split_semi [] = [[]]"
| "split_semi (c # cs) =
     (if c = CHR '';'' then [] # split_semi cs
      else (case split_semi cs of
              p # ps \<Rightarrow> (c # p) # ps
            | [] \<Rightarrow> [[c]]))"

text \<open>
  \<^verbatim>\<open>Number\<close> on a non-empty string of decimal digits, as the exact value. A double
  rounds a value beyond \<open>2^53\<close>, but rounding is monotone and never takes a value above 97
  to one of the codes the parser compares with, so the comparisons below are those of the source.
\<close>

definition digit_val :: "char \<Rightarrow> nat" where
  "digit_val c = of_char c - of_char (CHR ''0'')"

definition Number :: "string \<Rightarrow> nat" where
  "Number ds = foldl (\<lambda>a d. 10 * a + digit_val d) 0 ds"

definition codes_of :: "string \<Rightarrow> nat list" where
  "codes_of seq = map Number (filter (\<lambda>p. p \<noteq> []) (split_semi seq))"

definition apply_code :: "Style \<Rightarrow> nat \<Rightarrow> Style" where
  "apply_code st c =
     (if c = 0 then empty_style
      else if c = 1 then st\<lparr>bold := Some True\<rparr>
      else if c = 2 then st\<lparr>dim := Some True\<rparr>
      else if c = 3 then st\<lparr>italic := Some True\<rparr>
      else if c = 4 then st\<lparr>underline := Some True\<rparr>
      else if c = 22 then st\<lparr>bold := Some False, dim := Some False\<rparr>
      else if c = 23 then st\<lparr>italic := Some False\<rparr>
      else if c = 24 then st\<lparr>underline := Some False\<rparr>
      else if c = 39 then st\<lparr>fg := None\<rparr>
      else (case ANSI c of Some col \<Rightarrow> st\<lparr>fg := Some col\<rparr> | None \<Rightarrow> st))"

definition apply_seq :: "Style \<Rightarrow> string \<Rightarrow> Style" where
  "apply_seq st seq = foldl apply_code st (codes_of seq)"

subsection \<open>parseAnsi\<close>

lemma match_here_shorter: "match_here s = Some (ps, rest) \<Longrightarrow> length rest < length s"
proof -
  assume m: "match_here s = Some (ps, rest)"
  then obtain r where s: "s = ESC # CHR ''['' # r" and d: "dropWhile is_param r = CHR ''m'' # rest"
    by (auto simp: match_here_def split: list.splits if_splits)
  have "length (dropWhile is_param r) \<le> length r"
    by (rule length_dropWhile_le)
  with s d show ?thesis by simp
qed

lemma re_exec_shorter: "re_exec s = Some (pre, ps, rest) \<Longrightarrow> length rest < length s"
proof (induction s arbitrary: pre)
  case Nil
  then show ?case by simp
next
  case (Cons c cs)
  then show ?case
    by (fastforce split: option.splits dest: match_here_shorter)
qed

text \<open>
  The \<^verbatim>\<open>while\<close> loop. The state is the text from \<^verbatim>\<open>idx\<close> on, the running style and
  the spans pushed so far. \<^verbatim>\<open>m.index > idx\<close> says that the text before the match is not
  empty, \<^verbatim>\<open>idx < text.length\<close> that the text left is not empty. A span holds a copy of the
  running style, so a later assignment to the running style leaves it as it was pushed.
\<close>

function parse_loop :: "string \<Rightarrow> Style \<Rightarrow> Span list \<Rightarrow> Span list" where
  "parse_loop s st spans =
     (case re_exec s of
        Some (pre, seq, rest) \<Rightarrow>
          parse_loop rest (apply_seq st seq)
            (if pre \<noteq> [] then spans @ [\<lparr>text = pre, style = st\<rparr>] else spans)
      | None \<Rightarrow>
          (if s \<noteq> [] then spans @ [\<lparr>text = s, style = st\<rparr>] else spans))"
  by pat_completeness auto
termination
  by (relation "measure (\<lambda>(s, st, spans). length s)") (auto dest: re_exec_shorter)

declare parse_loop.simps [simp del]

definition parseAnsi :: "string \<Rightarrow> Span list" where
  "parseAnsi line = parse_loop line empty_style []"


section \<open>Layout metrics and the timeline of main\<close>

text \<open>
  A JavaScript number is modelled as a real where the source can hold a fraction (frames
  per second, seconds, the measured character width, zoom and scroll values) and as an
  integer where the source's value is an integer by construction (the presets, the results
  of \<^verbatim>\<open>Math.round\<close> and \<^verbatim>\<open>Math.ceil\<close>, the frame index). The arithmetic is exact:
  the rounding of doubles is not part of the model.
\<close>

subsection \<open>Options\<close>

datatype Tier = sm | md | lg

type_synonym SizeKey = Tier
type_synonym PaddingKey = Tier

datatype Aspect = square | landscape | portrait

text \<open>
  The options that the layout and the timeline read. The field \<^verbatim>\<open>size\<close> is named
  \<open>sizeK\<close> here. The file names, the colours, the font name and the quality do not reach
  any value modelled below.
\<close>

record Opts =
  sizeK :: SizeKey
  aspect :: Aspect
  padding :: PaddingKey
  fps :: real
  cols :: real
  pageWait :: real
  overlap :: real

definition DEFAULTS :: Opts where
  "DEFAULTS = \<lparr>sizeK = md, aspect = landscape, padding = md,
                fps = 30, cols = 80, pageWait = 6, overlap = 4\<rparr>"

text \<open>What \<^verbatim>\<open>assertMin\<close> lets through in \<^verbatim>\<open>parseArgs\<close>.\<close>

definition valid_opts :: "Opts \<Rightarrow> bool" where
  "valid_opts opts = (1 \<le> fps opts \<and> 1 \<le> cols opts \<and> 0 \<le> pageWait opts \<and> 0 \<le> overlap opts)"

fun SIZES_square :: "SizeKey \<Rightarrow> int" where
  "SIZES_square sm = 540"
| "SIZES_square md = 720"
| "SIZES_square lg = 1080"

fun SIZES_landscape :: "SizeKey \<Rightarrow> int \<times> int" where
  "SIZES_landscape sm = (720, 540)"
| "SIZES_landscape md = (960, 720)"
| "SIZES_landscape lg = (1440, 1080)"

fun SIZES_portrait :: "SizeKey \<Rightarrow> int \<times> int" where
  "SIZES_portrait sm = (540, 720)"
| "SIZES_portrait md = (720, 960)"
| "SIZES_portrait lg = (1080, 1440)"

fun PADDINGS :: "PaddingKey \<Rightarrow> int" where
  "PADDINGS sm = 30"
| "PADDINGS md = 48"
| "PADDINGS lg = 64"

subsection \<open>Number functions\<close>

text \<open>\<^verbatim>\<open>Math.round\<close> rounds a half up.\<close>

definition Math_round :: "real \<Rightarrow> int" where
  "Math_round x = \<lfloor>x + 1 / 2\<rfloor>"

subsection \<open>Layout\<close>

definition canvas_WH :: "Opts \<Rightarrow> int \<times> int" where
  "canvas_WH opts =
     (if aspect opts = square then (SIZES_square (sizeK opts), SIZES_square (sizeK opts))
      else if aspect opts = landscape then SIZES_landscape (sizeK opts)
      else SIZES_portrait (sizeK opts))"

definition W :: "Opts \<Rightarrow> int" where
  "W opts = fst (canvas_WH opts)"

definition H :: "Opts \<Rightarrow> int" where
  "H opts = snd (canvas_WH opts)"

definition PAD :: "Opts \<Rightarrow> int" where
  "PAD opts = PADDINGS (padding opts)"

definition FONT :: "Opts \<Rightarrow> int" where
  "FONT opts = (if sizeK opts = sm then 12 else if sizeK opts = md then 13 else 15)"

definition LH :: "Opts \<Rightarrow> int" where
  "LH opts = Math_round (real_of_int (FONT opts) * 1.5)"

definition WPAD :: "Opts \<Rightarrow> int" where
  "WPAD opts = Math_round (real_of_int (PAD opts) * 0.7)"

definition TITLE_H :: int where
  "TITLE_H = 32"

text \<open>
  \<open>cw\<close> is the width that the canvas library measures for the letter M in the chosen font:
  a parameter of the model.
\<close>

definition contentW :: "Opts \<Rightarrow> real \<Rightarrow> int" where
  "contentW opts cw = \<lceil>cols opts * cw\<rceil>"

definition winW :: "Opts \<Rightarrow> real \<Rightarrow> int" where
  "winW opts cw = contentW opts cw + WPAD opts * 2"

definition winH :: "Opts \<Rightarrow> int" where
  "winH opts = H opts - PAD opts * 2"

definition visH :: "Opts \<Rightarrow> int" where
  "visH opts = winH opts - TITLE_H - WPAD opts"

text \<open>The document is the list of parsed lines; the layout reads its length only.\<close>

definition totalH :: "Opts \<Rightarrow> Span list list \<Rightarrow> int" where
  "totalH opts doc = int (length doc) * LH opts"

definition maxScroll :: "Opts \<Rightarrow> Span list list \<Rightarrow> int" where
  "maxScroll opts doc = max 0 (totalH opts doc - visH opts + WPAD opts)"

definition hasScroll :: "Opts \<Rightarrow> Span list list \<Rightarrow> bool" where
  "hasScroll opts doc = (maxScroll opts doc > 0)"

subsection \<open>Timeline\<close>

definition ZOOM_FRAMES :: "Opts \<Rightarrow> int" where
  "ZOOM_FRAMES opts = Math_round (fps opts * 0.6)"

definition zoomScale :: "Opts \<Rightarrow> real \<Rightarrow> real" where
  "zoomScale opts cw = real_of_int (W opts) / real_of_int (winW opts cw)"

definition pageHeight :: "Opts \<Rightarrow> real" where
  "pageHeight opts = max (real_of_int (LH opts)) (real_of_int (visH opts) - real_of_int (LH opts) * overlap opts)"

definition numPages :: "Opts \<Rightarrow> Span list list \<Rightarrow> int" where
  "numPages opts doc = \<lceil>real_of_int (maxScroll opts doc) / pageHeight opts\<rceil>"

definition PAGE_SCROLL_FRAMES :: "Opts \<Rightarrow> int" where
  "PAGE_SCROLL_FRAMES opts = Math_round (fps opts * 0.8)"

definition PAGE_PAUSE_FRAMES :: "Opts \<Rightarrow> int" where
  "PAGE_PAUSE_FRAMES opts = Math_round (fps opts * pageWait opts)"

definition HOLD_AFTER_ZOOM :: "Opts \<Rightarrow> int" where
  "HOLD_AFTER_ZOOM opts = PAGE_PAUSE_FRAMES opts"

definition scrollFrames :: "Opts \<Rightarrow> Span list list \<Rightarrow> int" where
  "scrollFrames opts doc =
     (if hasScroll opts doc then numPages opts doc * (PAGE_SCROLL_FRAMES opts + PAGE_PAUSE_FRAMES opts) else 0)"

text \<open>The constant \<^verbatim>\<open>total\<close> of the source.\<close>

definition total_frames :: "Opts \<Rightarrow> Span list list \<Rightarrow> int" where
  "total_frames opts doc =
     ZOOM_FRAMES opts + HOLD_AFTER_ZOOM opts + scrollFrames opts doc
       + (if hasScroll opts doc then ZOOM_FRAMES opts else Math_round (fps opts * 0.3))"

subsection \<open>The transform of one frame\<close>

text \<open>
  The body of the frame loop up to the drawing: the branch taken, the zoom and the scroll
  offset. The phase names the branch, after the source's comments. The frame index is an
  integer; \<^verbatim>\<open>Math.floor\<close> of the quotient and \<^verbatim>\<open>%\<close> are taken where the frame is at
  or after \<open>scrollStart\<close>, so the dividend is not negative there.
\<close>

datatype Phase = ZoomIn | Hold | PageScroll | PagePause | ZoomOut | FinalHold

record FrameT =
  phase :: Phase
  zoom :: real
  scrollY :: real

text \<open>The scroll offset while paused on a page: the target of that page, clamped.\<close>

definition pausedScrollY :: "Opts \<Rightarrow> Span list list \<Rightarrow> int \<Rightarrow> real" where
  "pausedScrollY opts doc currentPage =
     (let prevPageScroll = real_of_int currentPage * pageHeight opts
      in min (real_of_int (maxScroll opts doc)) (prevPageScroll + pageHeight opts))"

definition frame_transform :: "Opts \<Rightarrow> real \<Rightarrow> Span list list \<Rightarrow> int \<Rightarrow> FrameT" where
  "frame_transform opts cw doc f =
     (let scrollStart = ZOOM_FRAMES opts + HOLD_AFTER_ZOOM opts;
          scrollEnd = scrollStart + scrollFrames opts doc;
          zoomOutStart = scrollEnd
      in
        if f < ZOOM_FRAMES opts then
          (let p = real_of_int f / real_of_int (ZOOM_FRAMES opts);
               ease = 1 - (1 - p) ^ 3
           in \<lparr>phase = ZoomIn, zoom = 1 + (zoomScale opts cw - 1) * ease, scrollY = 0\<rparr>)
        else if f < scrollStart then
          \<lparr>phase = Hold, zoom = zoomScale opts cw, scrollY = 0\<rparr>
        else if f < scrollEnd then
          (let scrollFrame = f - scrollStart;
               pageLen = PAGE_SCROLL_FRAMES opts + PAGE_PAUSE_FRAMES opts;
               currentPage = \<lfloor>real_of_int scrollFrame / real_of_int pageLen\<rfloor>;
               frameInPage = scrollFrame mod pageLen;
               prevPageScroll = real_of_int currentPage * pageHeight opts
           in
             if frameInPage < PAGE_SCROLL_FRAMES opts then
               (let p = real_of_int frameInPage / real_of_int (PAGE_SCROLL_FRAMES opts);
                    ease = 1 - (1 - p) ^ 3
                in \<lparr>phase = PageScroll, zoom = zoomScale opts cw,
                     scrollY = min (real_of_int (maxScroll opts doc))
                                   (prevPageScroll + pageHeight opts * ease)\<rparr>)
             else
               \<lparr>phase = PagePause, zoom = zoomScale opts cw,
                  scrollY = pausedScrollY opts doc currentPage\<rparr>)
        else if hasScroll opts doc then
          (let p = real_of_int (f - zoomOutStart) / real_of_int (ZOOM_FRAMES opts);
               ease = 1 - (1 - p) ^ 3
           in \<lparr>phase = ZoomOut, zoom = zoomScale opts cw - (zoomScale opts cw - 1) * ease,
                scrollY = real_of_int (maxScroll opts doc)\<rparr>)
        else
          \<lparr>phase = FinalHold, zoom = 1, scrollY = 0\<rparr>)"

subsection \<open>The progress bar\<close>

text \<open>
  \<^verbatim>\<open>barProgress\<close> starts at \<open>-1\<close> and the bar is drawn when it is not negative. Both
  divisions are reached only with a positive divisor: the first branch needs a frame inside
  the hold, the second a frame of a page at or after its scroll frames.
\<close>

definition barProgress :: "Opts \<Rightarrow> Span list list \<Rightarrow> int \<Rightarrow> real" where
  "barProgress opts doc f =
     (let scrollStart = ZOOM_FRAMES opts + HOLD_AFTER_ZOOM opts;
          scrollEnd = scrollStart + scrollFrames opts doc
      in
        if f \<ge> ZOOM_FRAMES opts \<and> f < scrollStart then
          real_of_int (f - ZOOM_FRAMES opts) / real_of_int (HOLD_AFTER_ZOOM opts)
        else if f \<ge> scrollStart \<and> f < scrollEnd then
          (let scrollFrame = f - scrollStart;
               pageLen = PAGE_SCROLL_FRAMES opts + PAGE_PAUSE_FRAMES opts;
               frameInPage = scrollFrame mod pageLen
           in
             if frameInPage \<ge> PAGE_SCROLL_FRAMES opts then
               real_of_int (frameInPage - PAGE_SCROLL_FRAMES opts)
                 / real_of_int (PAGE_PAUSE_FRAMES opts)
             else -1)
        else -1)"

definition bar_drawn :: "Opts \<Rightarrow> Span list list \<Rightarrow> int \<Rightarrow> bool" where
  "bar_drawn opts doc f = (barProgress opts doc f \<ge> 0)"

section \<open>Properties of the style parser\<close>

subsection \<open>The text of the spans\<close>





subsection \<open>No empty span\<close>

lemma parse_loop_nonempty:
  "\<forall>sp \<in> set spans. text sp \<noteq> [] \<Longrightarrow> \<forall>sp \<in> set (parse_loop s st spans). text sp \<noteq> []"
proof (induction s st spans rule: parse_loop.induct)
  case (1 s st spans)
  show ?case
  proof (cases "re_exec s")
    case None
    with "1.prems" show ?thesis
      by (subst parse_loop.simps) auto
  next
    case (Some m)
    then obtain pre seq rest where m: "re_exec s = Some (pre, seq, rest)"
      by (cases m) auto
    have "\<forall>sp \<in> set (if pre \<noteq> [] then spans @ [\<lparr>text = pre, style = st\<rparr>] else spans).
            text sp \<noteq> []"
      using "1.prems" by auto
    from "1.IH"[OF m refl refl this]
    show ?thesis
      by (subst parse_loop.simps) (simp add: m)
  qed
qed

text \<open>
  C10. Every span that \<open>parseAnsi\<close> returns has a non-empty text, for every input line,
  also when escape sequences are next to each other or at the start or the end of the line.
\<close>

theorem parseAnsi_spans_nonempty: "\<forall>sp \<in> set (parseAnsi line). text sp \<noteq> []"
  unfolding parseAnsi_def by (rule parse_loop_nonempty) simp

text \<open>
  The line ESC[1m ESC[0m ab ESC[m has two adjacent sequences at its start and one at its
  end; it parses to the one span ab.
\<close>

theorem parseAnsi_spans_nonempty_witness:
  "parseAnsi ([ESC] @ ''[1m'' @ [ESC] @ ''[0mab'' @ [ESC] @ ''[m'')
     = [\<lparr>text = ''ab'', style = empty_style\<rparr>]
   \<and> text (hd (parseAnsi ([ESC] @ ''[1m'' @ [ESC] @ ''[0mab'' @ [ESC] @ ''[m''))) \<noteq> []"
proof
  show p: "parseAnsi ([ESC] @ ''[1m'' @ [ESC] @ ''[0mab'' @ [ESC] @ ''[m'')
          = [\<lparr>text = ''ab'', style = empty_style\<rparr>]"
    by code_simp
  have "hd (parseAnsi ([ESC] @ ''[1m'' @ [ESC] @ ''[0mab'' @ [ESC] @ ''[m''))
          \<in> set (parseAnsi ([ESC] @ ''[1m'' @ [ESC] @ ''[0mab'' @ [ESC] @ ''[m''))"
    by (simp only: p list.sel list.set insertI1)
  with parseAnsi_spans_nonempty
  show "text (hd (parseAnsi ([ESC] @ ''[1m'' @ [ESC] @ ''[0mab'' @ [ESC] @ ''[m''))) \<noteq> []"
    by blast
qed

subsection \<open>Lines without an escape sequence\<close>

text \<open>
  C6, as stated: a line in which the pattern finds no match parses to exactly one span. The
  empty line has no match and parses to no span at all: the last push is guarded by
  \<^verbatim>\<open>idx < text.length\<close>.
\<close>

theorem parseAnsi_no_escape_counterexample:
  "re_exec '''' = None \<and> parseAnsi '''' = []"
  by (simp add: parseAnsi_def parse_loop.simps [of "[]"])

text \<open>
  C6, amended. For every non-empty input line without an escape sequence, \<open>parseAnsi\<close>
  returns exactly one span, whose text is the whole line and whose style is the empty
  style; for the empty line it returns no span.
\<close>

theorem parseAnsi_no_escape:
  "re_exec line = None \<Longrightarrow>
   parseAnsi line = (if line = [] then [] else [\<lparr>text = line, style = empty_style\<rparr>])"
  by (simp add: parseAnsi_def parse_loop.simps [of line])

theorem parseAnsi_no_escape_witness:
  "re_exec ''# Title'' = None
   \<and> parseAnsi ''# Title'' = [\<lparr>text = ''# Title'', style = empty_style\<rparr>]"
proof -
  have h: "re_exec ''# Title'' = None"
    by (simp add: match_here_def ESC_def)
  from parseAnsi_no_escape [OF h] h show ?thesis by simp
qed

subsection \<open>A sequence without parameters\<close>




subsection \<open>Codes outside the table\<close>








section \<open>Properties of the layout and the timeline\<close>

lemmas layout_defs = canvas_WH_def W_def H_def PAD_def FONT_def LH_def WPAD_def TITLE_H_def
  winH_def visH_def totalH_def maxScroll_def hasScroll_def Math_round_def contentW_def winW_def

subsection \<open>The scroll bound\<close>

text \<open>
  C1, as stated: the content height being at most the visible band height gives a zero
  maximum scroll offset. The offset adds the bottom padding \<open>WPAD\<close>, so a document that
  fits the band by less than the padding still scrolls: with the default options the band
  is 558 high, 27 lines are 540 high, and the maximum scroll offset is 16.
\<close>

theorem maxScroll_counterexample:
  "int (length (replicate 27 ([] :: Span list))) * LH DEFAULTS \<le> visH DEFAULTS
   \<and> maxScroll DEFAULTS (replicate 27 []) = 16
   \<and> hasScroll DEFAULTS (replicate 27 [])"
  by (simp add: DEFAULTS_def layout_defs)

text \<open>
  C1, amended. For every document and configuration the maximum scroll offset is at least
  0; and whenever line count times line height is at most the visible band height minus the
  bottom padding \<open>WPAD\<close>, the maximum scroll offset is 0 and \<open>hasScroll\<close> is false.
\<close>

theorem maxScroll_bound:
  "0 \<le> maxScroll opts doc
   \<and> (int (length doc) * LH opts \<le> visH opts - WPAD opts
        \<longrightarrow> maxScroll opts doc = 0 \<and> \<not> hasScroll opts doc)"
  by (simp add: maxScroll_def hasScroll_def totalH_def)

theorem maxScroll_bound_witness:
  "int (length [[] :: Span list]) * LH DEFAULTS \<le> visH DEFAULTS - WPAD DEFAULTS
   \<and> 0 \<le> maxScroll DEFAULTS [[]]
   \<and> maxScroll DEFAULTS [[]] = 0 \<and> \<not> hasScroll DEFAULTS [[]]"
proof -
  have h: "int (length [[] :: Span list]) * LH DEFAULTS \<le> visH DEFAULTS - WPAD DEFAULTS"
    by (simp add: DEFAULTS_def layout_defs)
  with maxScroll_bound [of DEFAULTS "[[]]"] show ?thesis by blast
qed

subsection \<open>Page coverage\<close>

lemma LH_pos: "0 < LH opts"
  by (simp add: LH_def FONT_def Math_round_def)

lemma pageHeight_pos: "0 < pageHeight opts"
proof -
  have "0 < real_of_int (LH opts)" using LH_pos [of opts] by simp
  then show ?thesis by (simp add: pageHeight_def less_max_iff_disj)
qed




subsection \<open>Frame counts\<close>

lemma Math_round_ge: "n \<le> Math_round x \<longleftrightarrow> real_of_int n \<le> x + 1 / 2"
  by (simp add: Math_round_def le_floor_iff)

lemma ZOOM_FRAMES_pos: "valid_opts opts \<Longrightarrow> 1 \<le> ZOOM_FRAMES opts"
  by (simp add: ZOOM_FRAMES_def Math_round_ge valid_opts_def)

lemma PAGE_SCROLL_FRAMES_pos: "valid_opts opts \<Longrightarrow> 1 \<le> PAGE_SCROLL_FRAMES opts"
  by (simp add: PAGE_SCROLL_FRAMES_def Math_round_ge valid_opts_def)

lemma PAGE_PAUSE_FRAMES_nonneg: "valid_opts opts \<Longrightarrow> 0 \<le> PAGE_PAUSE_FRAMES opts"
  by (simp add: PAGE_PAUSE_FRAMES_def Math_round_ge valid_opts_def)

lemma final_hold_nonneg: "valid_opts opts \<Longrightarrow> 0 \<le> Math_round (fps opts * 0.3)"
  by (simp add: Math_round_ge valid_opts_def)

lemma numPages_nonneg: "0 \<le> numPages opts doc"
proof -
  have "0 \<le> real_of_int (maxScroll opts doc) / pageHeight opts"
    using pageHeight_pos [of opts] by (simp add: maxScroll_def)
  then show ?thesis unfolding numPages_def by linarith
qed

lemma scrollFrames_nonneg: "valid_opts opts \<Longrightarrow> 0 \<le> scrollFrames opts doc"
  using PAGE_SCROLL_FRAMES_pos [of opts] PAGE_PAUSE_FRAMES_nonneg [of opts] numPages_nonneg [of opts doc]
  by (simp add: scrollFrames_def)

text \<open>
  C7. Whenever \<open>hasScroll\<close> is false there are no pages and no scroll frames, the total
  frame count is the zoom-in duration \<open>round (fps * 0.6)\<close> plus the hold duration
  \<open>round (fps * pageWait)\<close> plus \<open>round (fps * 0.3)\<close>, and every frame index from the end
  of the zoom-in up to the hold duration later is below the total, so the loop emits it,
  and is a frame of the hold.
\<close>

theorem no_scroll_timeline:
  assumes "valid_opts opts" and "\<not> hasScroll opts doc"
  shows "numPages opts doc = 0
       \<and> scrollFrames opts doc = 0
       \<and> total_frames opts doc
           = Math_round (fps opts * 0.6) + Math_round (fps opts * pageWait opts)
               + Math_round (fps opts * 0.3)
       \<and> (\<forall>f. Math_round (fps opts * 0.6) \<le> f
                \<and> f < Math_round (fps opts * 0.6) + Math_round (fps opts * pageWait opts)
              \<longrightarrow> 0 \<le> f \<and> f < total_frames opts doc
                  \<and> phase (frame_transform opts cw doc f) = Hold)"
proof -
  have m: "maxScroll opts doc = 0"
    using assms(2) by (simp add: hasScroll_def maxScroll_def)
  have n: "numPages opts doc = 0"
    by (simp add: numPages_def m)
  have s: "scrollFrames opts doc = 0"
    using assms(2) by (simp add: scrollFrames_def)
  have t: "total_frames opts doc
           = Math_round (fps opts * 0.6) + Math_round (fps opts * pageWait opts)
               + Math_round (fps opts * 0.3)"
    using assms(2)
    by (simp add: total_frames_def s ZOOM_FRAMES_def HOLD_AFTER_ZOOM_def PAGE_PAUSE_FRAMES_def)
  have h: "0 \<le> f \<and> f < total_frames opts doc \<and> phase (frame_transform opts cw doc f) = Hold"
    if "Math_round (fps opts * 0.6) \<le> f
        \<and> f < Math_round (fps opts * 0.6) + Math_round (fps opts * pageWait opts)" for f
  proof -
    from that have a: "ZOOM_FRAMES opts \<le> f" and b: "f < ZOOM_FRAMES opts + HOLD_AFTER_ZOOM opts"
      by (simp_all add: ZOOM_FRAMES_def HOLD_AFTER_ZOOM_def PAGE_PAUSE_FRAMES_def)
    have "0 \<le> f" using a ZOOM_FRAMES_pos [OF assms(1)] by simp
    moreover have "f < total_frames opts doc"
      using that final_hold_nonneg [OF assms(1)] by (simp add: t)
    moreover have "phase (frame_transform opts cw doc f) = Hold"
      using a b by (simp add: frame_transform_def Let_def)
    ultimately show ?thesis by simp
  qed
  from n s t h show ?thesis by blast
qed

text \<open>A document of one line under the default options: 18 + 180 + 9 frames.\<close>

theorem no_scroll_timeline_witness:
  "valid_opts DEFAULTS \<and> \<not> hasScroll DEFAULTS [[]]
   \<and> numPages DEFAULTS [[]] = 0
   \<and> total_frames DEFAULTS [[]] = 18 + 180 + 9
   \<and> phase (frame_transform DEFAULTS (783 / 100) [[]] 18) = Hold
   \<and> phase (frame_transform DEFAULTS (783 / 100) [[]] 197) = Hold
   \<and> (197::int) < total_frames DEFAULTS [[]]"
proof -
  have v: "valid_opts DEFAULTS"
    by (simp add: valid_opts_def DEFAULTS_def)
  have h: "\<not> hasScroll DEFAULTS [[]]"
    by (simp add: DEFAULTS_def layout_defs)
  have r: "Math_round (fps DEFAULTS * 0.6) = 18" "Math_round (fps DEFAULTS * pageWait DEFAULTS) = 180"
    "Math_round (fps DEFAULTS * 0.3) = 9"
    by (simp_all add: DEFAULTS_def Math_round_def)
  note c = no_scroll_timeline [OF v h, of "783 / 100", unfolded r]
  from c have i: "\<forall>f. 18 \<le> f \<and> f < 18 + 180 \<longrightarrow> 0 \<le> f \<and> f < total_frames DEFAULTS [[]]
                  \<and> phase (frame_transform DEFAULTS (783 / 100) [[]] f) = Hold"
    by blast
  from c v h i [rule_format, of 18] i [rule_format, of 197] show ?thesis by simp
qed

subsection \<open>The zoom-in\<close>

text \<open>
  C3, as stated: the zoom of the last zoom-in frame is the target zoom up to rounding. The
  progress of frame \<open>f\<close> is \<open>f / ZOOM_FRAMES\<close>, which is below 1 on every zoom-in frame, so
  the eased value stops short of 1. With the default options and a measured character
  width of 7.83 the window is 695 wide, the target is \<open>960 / 695\<close>, about 1.38129, and the
  zoom of frame 17 of 18 is about 1.38123: the gap is more than \<open>1 / 20000\<close>, far from the
  rounding error of a double.
\<close>

theorem zoom_in_last_frame_counterexample:
  "valid_opts DEFAULTS
   \<and> ZOOM_FRAMES DEFAULTS = 18
   \<and> zoomScale DEFAULTS (783 / 100) = 192 / 139
   \<and> phase (frame_transform DEFAULTS (783 / 100) [[]] 17) = ZoomIn
   \<and> zoom (frame_transform DEFAULTS (783 / 100) [[]] 17) = 1119691 / 810648
   \<and> 1 / 20000 < zoomScale DEFAULTS (783 / 100) - zoom (frame_transform DEFAULTS (783 / 100) [[]] 17)"
proof -
  have z: "ZOOM_FRAMES DEFAULTS = 18"
    by (simp add: ZOOM_FRAMES_def DEFAULTS_def Math_round_def)
  have s: "zoomScale DEFAULTS (783 / 100) = 192 / 139"
    by (simp add: zoomScale_def DEFAULTS_def layout_defs)
  have f: "frame_transform DEFAULTS (783 / 100) [[]] 17
             = \<lparr>phase = ZoomIn, zoom = 1119691 / 810648, scrollY = 0\<rparr>"
    by (simp add: frame_transform_def Let_def z s power3_eq_cube)
  have v: "valid_opts DEFAULTS"
    by (simp add: valid_opts_def DEFAULTS_def)
  show ?thesis
    by (simp add: z s f v)
qed

text \<open>
  C3, amended. The zoom computed for frame 0 is exactly 1, and the zoom computed for the
  last frame of the zoom-in, frame \<open>ZOOM_FRAMES - 1\<close>, is
  \<open>1 + (targetZoom - 1) * (1 - 1 / ZOOM_FRAMES ^ 3)\<close>: it falls short of the target zoom
  by \<open>(targetZoom - 1) / ZOOM_FRAMES ^ 3\<close>.
\<close>

theorem zoom_in_endpoints:
  assumes "valid_opts opts"
  shows "phase (frame_transform opts cw doc 0) = ZoomIn
       \<and> zoom (frame_transform opts cw doc 0) = 1
       \<and> phase (frame_transform opts cw doc (ZOOM_FRAMES opts - 1)) = ZoomIn
       \<and> zoom (frame_transform opts cw doc (ZOOM_FRAMES opts - 1))
           = 1 + (zoomScale opts cw - 1) * (1 - 1 / real_of_int (ZOOM_FRAMES opts) ^ 3)
       \<and> zoomScale opts cw - zoom (frame_transform opts cw doc (ZOOM_FRAMES opts - 1))
           = (zoomScale opts cw - 1) / real_of_int (ZOOM_FRAMES opts) ^ 3"
proof -
  define Z where "Z = ZOOM_FRAMES opts"
  have Z: "1 \<le> Z" unfolding Z_def using assms by (rule ZOOM_FRAMES_pos)
  then have Zr: "real_of_int Z \<noteq> 0" by simp
  have f0: "frame_transform opts cw doc 0 = \<lparr>phase = ZoomIn, zoom = 1, scrollY = 0\<rparr>"
    using Z by (simp add: frame_transform_def Let_def Z_def [symmetric])
  have p: "1 - real_of_int (Z - 1) / real_of_int Z = 1 / real_of_int Z"
    using Zr by (simp add: field_simps)
  have fl: "frame_transform opts cw doc (Z - 1)
      = \<lparr>phase = ZoomIn, zoom = 1 + (zoomScale opts cw - 1) * (1 - (1 / real_of_int Z) ^ 3),
         scrollY = 0\<rparr>"
    by (simp only: frame_transform_def Let_def Z_def [symmetric] p) simp
  show ?thesis
    unfolding Z_def [symmetric]
    by (simp add: f0 fl power_one_over algebra_simps)
qed

theorem zoom_in_endpoints_witness:
  "valid_opts DEFAULTS
   \<and> zoom (frame_transform DEFAULTS (783 / 100) [[]] 0) = 1
   \<and> zoom (frame_transform DEFAULTS (783 / 100) [[]] 17) = 1 + (192 / 139 - 1) * (1 - 1 / 18 ^ 3)"
proof -
  have v: "valid_opts DEFAULTS"
    by (simp add: valid_opts_def DEFAULTS_def)
  have z: "ZOOM_FRAMES DEFAULTS = 18"
    by (simp add: ZOOM_FRAMES_def DEFAULTS_def Math_round_def)
  have s: "zoomScale DEFAULTS (783 / 100) = 192 / 139"
    by (simp add: zoomScale_def DEFAULTS_def layout_defs)
  from zoom_in_endpoints [OF v, of "783 / 100" "[[]]"] v show ?thesis
    by (simp add: z s)
qed

subsection \<open>The progress bar\<close>

text \<open>The phase of a frame, read off the branches of the transform.\<close>

lemma phase_cases:
  assumes "valid_opts opts"
  shows "phase (frame_transform opts cw doc f) =
     (if f < ZOOM_FRAMES opts then ZoomIn
      else if f < ZOOM_FRAMES opts + HOLD_AFTER_ZOOM opts then Hold
      else if f < ZOOM_FRAMES opts + HOLD_AFTER_ZOOM opts + scrollFrames opts doc then
        (if (f - (ZOOM_FRAMES opts + HOLD_AFTER_ZOOM opts))
              mod (PAGE_SCROLL_FRAMES opts + PAGE_PAUSE_FRAMES opts) < PAGE_SCROLL_FRAMES opts
         then PageScroll else PagePause)
      else if hasScroll opts doc then ZoomOut else FinalHold)"
  by (simp add: frame_transform_def Let_def)

text \<open>
  C8. For every frame index, the progress bar is drawn if and only if the frame lies in the
  initial hold or in the pause of a page; so it is not drawn during the zoom-in, the
  zoom-out, the final hold or the scroll of a page, and it is drawn on every frame of a
  pause. In the hold its progress is the number of frames since the hold began over the
  hold duration; in a pause it is the number of frames since that pause began over the
  pause duration, where the pause of page \<open>k\<close> begins \<open>k\<close> page lengths and one scroll
  duration after the start of the scrolling.
\<close>

theorem progress_bar_phases:
  assumes "valid_opts opts"
  shows "(bar_drawn opts doc f \<longleftrightarrow>
            phase (frame_transform opts cw doc f) = Hold
            \<or> phase (frame_transform opts cw doc f) = PagePause)
       \<and> (phase (frame_transform opts cw doc f) = Hold \<longrightarrow>
            barProgress opts doc f
              = real_of_int (f - ZOOM_FRAMES opts) / real_of_int (HOLD_AFTER_ZOOM opts))
       \<and> (phase (frame_transform opts cw doc f) = PagePause \<longrightarrow>
            barProgress opts doc f
              = real_of_int
                  (f - (ZOOM_FRAMES opts + HOLD_AFTER_ZOOM opts
                        + (f - (ZOOM_FRAMES opts + HOLD_AFTER_ZOOM opts))
                            div (PAGE_SCROLL_FRAMES opts + PAGE_PAUSE_FRAMES opts)
                          * (PAGE_SCROLL_FRAMES opts + PAGE_PAUSE_FRAMES opts)
                        + PAGE_SCROLL_FRAMES opts))
                / real_of_int (PAGE_PAUSE_FRAMES opts))"
proof -
  define Z where "Z = ZOOM_FRAMES opts"
  define S where "S = PAGE_SCROLL_FRAMES opts"
  define U where "U = PAGE_PAUSE_FRAMES opts"
  define F where "F = scrollFrames opts doc"
  have Z: "1 \<le> Z" unfolding Z_def using assms by (rule ZOOM_FRAMES_pos)
  have S: "1 \<le> S" unfolding S_def using assms by (rule PAGE_SCROLL_FRAMES_pos)
  have U: "0 \<le> U" unfolding U_def using assms by (rule PAGE_PAUSE_FRAMES_nonneg)
  have F: "0 \<le> F" unfolding F_def using assms by (rule scrollFrames_nonneg)
  have H: "HOLD_AFTER_ZOOM opts = U" by (simp add: HOLD_AFTER_ZOOM_def U_def)
  note ph = phase_cases [OF assms, of cw doc f, unfolded H, folded Z_def S_def U_def F_def]
  have bp: "barProgress opts doc f =
     (if Z \<le> f \<and> f < Z + U then real_of_int (f - Z) / real_of_int U
      else if Z + U \<le> f \<and> f < Z + U + F then
        (if S \<le> (f - (Z + U)) mod (S + U)
         then real_of_int ((f - (Z + U)) mod (S + U) - S) / real_of_int U else - 1)
      else - 1)"
    by (simp add: barProgress_def Let_def H Z_def S_def U_def F_def)
  consider (zin) "f < Z"
    | (hold) "Z \<le> f" "f < Z + U"
    | (scroll) "Z + U \<le> f" "f < Z + U + F" "(f - (Z + U)) mod (S + U) < S"
    | (pause) "Z + U \<le> f" "f < Z + U + F" "S \<le> (f - (Z + U)) mod (S + U)"
    | (out) "Z + U + F \<le> f"
    by linarith
  then have "(bar_drawn opts doc f \<longleftrightarrow>
            phase (frame_transform opts cw doc f) = Hold
            \<or> phase (frame_transform opts cw doc f) = PagePause)
       \<and> (phase (frame_transform opts cw doc f) = Hold \<longrightarrow>
            barProgress opts doc f = real_of_int (f - Z) / real_of_int U)
       \<and> (phase (frame_transform opts cw doc f) = PagePause \<longrightarrow>
            barProgress opts doc f
              = real_of_int (f - (Z + U + (f - (Z + U)) div (S + U) * (S + U) + S)) / real_of_int U)"
  proof cases
    case zin
    with U show ?thesis by (simp add: ph bp bar_drawn_def)
  next
    case hold
    then have "0 \<le> real_of_int (f - Z) / real_of_int U" by simp
    with hold show ?thesis by (simp add: ph bp bar_drawn_def)
  next
    case scroll
    with U show ?thesis by (simp add: ph bp bar_drawn_def)
  next
    case pause
    have e: "(f - (Z + U)) mod (S + U) - S = f - (Z + U + (f - (Z + U)) div (S + U) * (S + U) + S)"
      by (simp add: minus_div_mult_eq_mod [symmetric])
    from pause U have "0 \<le> real_of_int ((f - (Z + U)) mod (S + U) - S) / real_of_int U"
      by (intro divide_nonneg_nonneg) simp_all
    with pause U show ?thesis by (simp add: ph bp bar_drawn_def e)
  next
    case out
    with U F show ?thesis by (simp add: ph bp bar_drawn_def)
  qed
  then show ?thesis
    unfolding H Z_def S_def U_def .
qed

text \<open>
  A document of 100 lines under the default options: the zoom-in ends at frame 18, the
  scrolling runs from frame 198 to frame 1014 in pages of 24 scroll frames and 180 pause
  frames.
\<close>

theorem progress_bar_phases_witness:
  "valid_opts DEFAULTS
   \<and> phase (frame_transform DEFAULTS (783 / 100) (replicate 100 []) 17) = ZoomIn
   \<and> \<not> bar_drawn DEFAULTS (replicate 100 []) 17
   \<and> phase (frame_transform DEFAULTS (783 / 100) (replicate 100 []) 108) = Hold
   \<and> bar_drawn DEFAULTS (replicate 100 []) 108
   \<and> barProgress DEFAULTS (replicate 100 []) 108 = 90 / 180
   \<and> phase (frame_transform DEFAULTS (783 / 100) (replicate 100 []) 410) = PageScroll
   \<and> \<not> bar_drawn DEFAULTS (replicate 100 []) 410
   \<and> phase (frame_transform DEFAULTS (783 / 100) (replicate 100 []) 470) = PagePause
   \<and> bar_drawn DEFAULTS (replicate 100 []) 470
   \<and> barProgress DEFAULTS (replicate 100 []) 470 = 44 / 180
   \<and> phase (frame_transform DEFAULTS (783 / 100) (replicate 100 []) 1020) = ZoomOut
   \<and> \<not> bar_drawn DEFAULTS (replicate 100 []) 1020"
proof -
  have v: "valid_opts DEFAULTS"
    by (simp add: valid_opts_def DEFAULTS_def)
  have z: "ZOOM_FRAMES DEFAULTS = 18" "PAGE_SCROLL_FRAMES DEFAULTS = 24"
    "PAGE_PAUSE_FRAMES DEFAULTS = 180" "HOLD_AFTER_ZOOM DEFAULTS = 180"
    by (simp_all add: ZOOM_FRAMES_def PAGE_SCROLL_FRAMES_def PAGE_PAUSE_FRAMES_def
        HOLD_AFTER_ZOOM_def DEFAULTS_def Math_round_def)
  have h: "hasScroll DEFAULTS (replicate 100 [])"
    by (simp add: DEFAULTS_def layout_defs)
  have n: "numPages DEFAULTS (replicate 100 []) = 4"
    by (simp add: DEFAULTS_def layout_defs numPages_def pageHeight_def)
  have s: "scrollFrames DEFAULTS (replicate 100 []) = 816"
    by (simp add: scrollFrames_def h n z)
  have p: "phase (frame_transform DEFAULTS (783 / 100) (replicate 100 []) 17) = ZoomIn"
    "phase (frame_transform DEFAULTS (783 / 100) (replicate 100 []) 108) = Hold"
    "phase (frame_transform DEFAULTS (783 / 100) (replicate 100 []) 410) = PageScroll"
    "phase (frame_transform DEFAULTS (783 / 100) (replicate 100 []) 470) = PagePause"
    "phase (frame_transform DEFAULTS (783 / 100) (replicate 100 []) 1020) = ZoomOut"
    by (simp_all add: frame_transform_def Let_def z s h)
  from progress_bar_phases [OF v, of "replicate 100 []" 17 "783 / 100"]
    progress_bar_phases [OF v, of "replicate 100 []" 108 "783 / 100"]
    progress_bar_phases [OF v, of "replicate 100 []" 410 "783 / 100"]
    progress_bar_phases [OF v, of "replicate 100 []" 470 "783 / 100"]
    progress_bar_phases [OF v, of "replicate 100 []" 1020 "783 / 100"]
    v
  show ?thesis
    by (simp add: p z)
qed

end
